theory Spec2Isabelle
  imports Main
begin

section \<open>The Sphinx configuration module \<open>docs/conf.py\<close>\<close>

text \<open>
  The module consists of assignments of configuration values, one read of the process
  environment, the build hook \<open>run_doxygen\<close> and the extension entry point \<open>setup\<close>.
  Everything the hook does is an effect on its surroundings, so the surroundings are a
  value of their own: a \<open>world\<close> holding the file tree, the working directory, the
  environment variables and a log of the system-level actions performed so far.
\<close>

subsection \<open>Exceptions\<close>

text \<open>
  The exception classes that the interpreter's library can raise in the calls the module
  makes. \<open>CalledProcessError\<close> carries the command and the return code, as the Python
  class does; the others are the \<open>OSError\<close> subclasses for a missing file, an existing
  file, a non-directory path component and a denied permission, and \<open>OSError\<close> stands
  for every other operating-system error.
\<close>

datatype exn =
    CalledProcessError "string list" int
  | FileNotFoundError
  | FileExistsError
  | NotADirectoryError
  | PermissionError
  | OSError

subsection \<open>The world outside the interpreter\<close>

datatype kind = Dir | File

text \<open>
  The file tree maps the list of names leading from the root to a node to the node's
  kind. It records which nodes exist and whether each is a directory; ownership,
  permissions, links and file contents are not part of it.
\<close>

type_synonym tree = "string list \<rightharpoonup> kind"

text \<open>
  System-level actions, in the order in which they are issued: a \<open>mkdir\<close> call with the
  path given to it, the request to start a program as a child process with its argument
  vector and working directory (logged whether or not the program can be started), and
  text written to standard output.
\<close>

datatype event =
    Mkdir string
  | Exec "string list" string
  | Write string

text \<open>
  \<open>exec_program\<close> is the behaviour of the machine when asked to start a program: from the
  argument vector, the working directory, the environment the child inherits and the file
  tree it either fails to start the program (an exception in the parent) or lets it run
  to its exit status and a new file tree. \<open>str_exception\<close> is the interpreter's \<open>str()\<close>
  on exception objects. Neither is code of this repository; both are taken as given.
\<close>

record world =
  fs :: tree
  cwd :: string
  environ :: "string \<rightharpoonup> string"
  trace :: "event list"
  exec_program :: "string list \<Rightarrow> string \<Rightarrow> (string \<rightharpoonup> string) \<Rightarrow> tree \<Rightarrow> exn + int \<times> tree"
  str_exception :: "exn \<Rightarrow> string"

text \<open>The result of an effectful call: what it returned or raised, and the world after it.\<close>

type_synonym 'a io = "world \<Rightarrow> (exn + 'a) \<times> world"

subsection \<open>Strings\<close>

text \<open>
  The string methods of Python that the path functions below are written with:
  \<open>s.startswith(t)\<close>, \<open>s.endswith(t)\<close>, \<open>s.rstrip(c)\<close> for a single character,
  \<open>s.split(c)\<close> and \<open>s.join(parts)\<close>.
\<close>

definition sep :: char where
  "sep = CHR ''/''"

definition startswith :: "string \<Rightarrow> string \<Rightarrow> bool" where
  "startswith s pre = (take (length pre) s = pre)"

definition endswith :: "string \<Rightarrow> string \<Rightarrow> bool" where
  "endswith s suf = (drop (length s - length suf) s = suf)"

definition rstrip :: "char \<Rightarrow> string \<Rightarrow> string" where
  "rstrip c s = rev (dropWhile (\<lambda>x. x = c) (rev s))"

fun str_split :: "char \<Rightarrow> string \<Rightarrow> string list" where
  "str_split c [] = [[]]"
| "str_split c (x # xs) =
     (if x = c then [] # str_split c xs
      else (case str_split c xs of [] \<Rightarrow> [[x]] | y # ys \<Rightarrow> (x # y) # ys))"

fun str_join :: "string \<Rightarrow> string list \<Rightarrow> string" where
  "str_join s [] = []"
| "str_join s [x] = x"
| "str_join s (x # y # ys) = x @ s @ str_join s (y # ys)"

subsection \<open>Path names: \<open>os.path\<close> on a POSIX system\<close>

text \<open>
  \<open>os.path.split\<close> cuts a path after its last separator, at \<open>i = p.rfind('/') + 1\<close>;
  the text before the cut loses its trailing separators unless it consists of
  separators only. \<open>os.path.dirname\<close> is the first half of the same computation.
  \<open>os.path.normpath\<close> keeps one or two leading separators, drops empty names and
  \<open>.\<close>, and cancels a name against a following \<open>..\<close>.
\<close>

definition os_path_isabs :: "string \<Rightarrow> bool" where
  "os_path_isabs s = startswith s [sep]"

definition os_path_join :: "string \<Rightarrow> string \<Rightarrow> string" where
  "os_path_join a b =
     (if startswith b [sep] then b
      else if a = [] \<or> endswith a [sep] then a @ b
      else a @ [sep] @ b)"

definition os_path_split :: "string \<Rightarrow> string \<times> string" where
  "os_path_split p =
     (let head = rev (dropWhile (\<lambda>c. c \<noteq> sep) (rev p));
          tail = rev (takeWhile (\<lambda>c. c \<noteq> sep) (rev p));
          head = (if head \<noteq> [] \<and> head \<noteq> replicate (length head) sep
                  then rstrip sep head else head)
      in (head, tail))"

definition os_path_dirname :: "string \<Rightarrow> string" where
  "os_path_dirname p =
     (let head = rev (dropWhile (\<lambda>c. c \<noteq> sep) (rev p));
          head = (if head \<noteq> [] \<and> head \<noteq> replicate (length head) sep
                  then rstrip sep head else head)
      in head)"

definition normpath_step :: "nat \<Rightarrow> string \<Rightarrow> string list \<Rightarrow> string list" where
  "normpath_step initial_slashes part new_comps =
     (if part = [] \<or> part = ''.'' then new_comps
      else if part \<noteq> ''..'' \<or> (initial_slashes = 0 \<and> new_comps = []) \<or>
              (new_comps \<noteq> [] \<and> last new_comps = ''..'')
           then new_comps @ [part]
      else if new_comps \<noteq> [] then butlast new_comps
      else new_comps)"

definition os_path_normpath :: "string \<Rightarrow> string" where
  "os_path_normpath path =
     (if path = [] then ''.''
      else
        let initial_slashes =
              (if startswith path [sep] then
                 (if startswith path [sep, sep] \<and> \<not> startswith path [sep, sep, sep]
                  then Suc (Suc 0) else Suc 0)
               else 0);
            comps = str_split sep path;
            new_comps = fold (normpath_step initial_slashes) comps [];
            path1 = str_join [sep] new_comps;
            path2 = (if initial_slashes \<noteq> 0 then replicate initial_slashes sep @ path1
                     else path1)
        in if path2 = [] then ''.'' else path2)"

definition os_getcwd :: "world \<Rightarrow> string" where
  "os_getcwd w = cwd w"

definition os_path_abspath :: "world \<Rightarrow> string \<Rightarrow> string" where
  "os_path_abspath w path =
     (let path = (if \<not> os_path_isabs path then os_path_join (os_getcwd w) path else path)
      in os_path_normpath path)"

subsection \<open>The file tree: lookup and \<open>mkdir\<close>\<close>

text \<open>
  The system resolves a path name to a list of names from the root, starting at the
  working directory when the path is relative; empty names and \<open>.\<close> are skipped and
  \<open>..\<close> steps back by one name. \<open>walk\<close> follows the names down the tree: a missing
  node is \<open>ENOENT\<close> (\<open>FileNotFoundError\<close>), a file where a directory is needed is
  \<open>ENOTDIR\<close> (\<open>NotADirectoryError\<close>). The empty path name does not resolve.
\<close>

definition name_step :: "string \<Rightarrow> string list \<Rightarrow> string list" where
  "name_step part names =
     (if part = [] \<or> part = ''.'' then names
      else if part = ''..'' then butlast names
      else names @ [part])"

definition path_names :: "world \<Rightarrow> string \<Rightarrow> string list" where
  "path_names w p =
     fold name_step (str_split sep (if os_path_isabs p then p else cwd w @ [sep] @ p)) []"

fun walk :: "tree \<Rightarrow> string list \<Rightarrow> string list \<Rightarrow> exn + kind" where
  "walk t pre [] = (case t pre of None \<Rightarrow> Inl FileNotFoundError | Some k \<Rightarrow> Inr k)"
| "walk t pre (n # ns) =
     (case t pre of
        None \<Rightarrow> Inl FileNotFoundError
      | Some File \<Rightarrow> Inl NotADirectoryError
      | Some Dir \<Rightarrow> walk t (pre @ [n]) ns)"

definition os_stat :: "world \<Rightarrow> string \<Rightarrow> exn + kind" where
  "os_stat w p = (if p = [] then Inl FileNotFoundError else walk (fs w) [] (path_names w p))"

definition os_path_exists :: "world \<Rightarrow> string \<Rightarrow> bool" where
  "os_path_exists w p = (case os_stat w p of Inl e \<Rightarrow> False | Inr k \<Rightarrow> True)"

definition os_path_isdir :: "world \<Rightarrow> string \<Rightarrow> bool" where
  "os_path_isdir w p = (case os_stat w p of Inl e \<Rightarrow> False | Inr k \<Rightarrow> k = Dir)"

definition os_mkdir :: "string \<Rightarrow> unit io" where
  "os_mkdir p w =
     (let w1 = w\<lparr>trace := trace w @ [Mkdir p]\<rparr>;
          names = path_names w p
      in if p = [] then (Inl FileNotFoundError, w1)
         else if names = [] then (Inl FileExistsError, w1)
         else (case walk (fs w) [] (butlast names) of
                 Inl e \<Rightarrow> (Inl e, w1)
               | Inr File \<Rightarrow> (Inl NotADirectoryError, w1)
               | Inr Dir \<Rightarrow>
                   (case fs w names of
                      Some k \<Rightarrow> (Inl FileExistsError, w1)
                    | None \<Rightarrow> (Inr (), w1\<lparr>fs := (fs w)(names \<mapsto> Dir)\<rparr>))))"

subsection \<open>\<open>os.makedirs\<close>\<close>

text \<open>
  The library function: split the name into head and tail (once more when the name ends
  in a separator); when the head is missing, create it first, passing over a
  \<open>FileExistsError\<close> from that; then \<open>mkdir\<close> the name itself, and pass over its
  failure when \<open>exist_ok\<close> is set and the name is a directory by then.
\<close>

definition makedirs_split :: "string \<Rightarrow> string \<times> string" where
  "makedirs_split name =
     (let (head, tail) = os_path_split name
      in if tail = [] then os_path_split head else (head, tail))"

definition makedirs_leaf :: "string \<Rightarrow> bool \<Rightarrow> unit io" where
  "makedirs_leaf name exist_ok w =
     (case os_mkdir name w of
        (Inl e, w1) \<Rightarrow>
          if \<not> exist_ok \<or> \<not> os_path_isdir w1 name then (Inl e, w1) else (Inr (), w1)
      | (Inr u, w1) \<Rightarrow> (Inr (), w1))"

function os_makedirs :: "string \<Rightarrow> bool \<Rightarrow> unit io" where
  "os_makedirs name exist_ok w =
     (if fst (makedirs_split name) \<noteq> [] \<and> snd (makedirs_split name) \<noteq> [] \<and>
         \<not> os_path_exists w (fst (makedirs_split name))
      then
        (case os_makedirs (fst (makedirs_split name)) exist_ok w of
           (Inl e, w1) \<Rightarrow>
             if e \<noteq> FileExistsError then (Inl e, w1)
             else if snd (makedirs_split name) = ''.'' then (Inr (), w1)
             else makedirs_leaf name exist_ok w1
         | (Inr u, w1) \<Rightarrow>
             if snd (makedirs_split name) = ''.'' then (Inr (), w1)
             else makedirs_leaf name exist_ok w1)
      else makedirs_leaf name exist_ok w)"
  by pat_completeness auto
termination
proof (relation "measure (\<lambda>(name, exist_ok, w). length name)")
  show "wf (measure (\<lambda>(name, exist_ok, w). length name))"
    by simp
next
  fix name :: string and exist_ok :: bool and w :: world
  assume a: "fst (makedirs_split name) \<noteq> [] \<and> snd (makedirs_split name) \<noteq> [] \<and>
         \<not> os_path_exists w (fst (makedirs_split name))"
  have h0: "length (fst (os_path_split p)) \<le> length (dropWhile (\<lambda>c. c \<noteq> sep) (rev p))"
    for p
  proof -
    have "length (dropWhile (\<lambda>x. x = sep) (dropWhile (\<lambda>c. c \<noteq> sep) (rev p)))
            \<le> length (dropWhile (\<lambda>c. c \<noteq> sep) (rev p))"
      by (rule length_dropWhile_le)
    then show ?thesis
      by (simp add: os_path_split_def Let_def rstrip_def)
  qed
  have le: "length (fst (os_path_split p)) \<le> length p" for p
  proof -
    have "length (dropWhile (\<lambda>c. c \<noteq> sep) (rev p)) \<le> length (rev p)"
      by (rule length_dropWhile_le)
    with h0 [of p] show ?thesis by simp
  qed
  have lt: "length (fst (os_path_split p)) < length p" if t: "snd (os_path_split p) \<noteq> []"
    for p
  proof -
    have "length (takeWhile (\<lambda>c. c \<noteq> sep) (rev p)) + length (dropWhile (\<lambda>c. c \<noteq> sep) (rev p))
            = length (rev p)"
      by (simp flip: length_append)
    moreover have "takeWhile (\<lambda>c. c \<noteq> sep) (rev p) \<noteq> []"
      using t by (simp add: os_path_split_def Let_def)
    ultimately have "length (dropWhile (\<lambda>c. c \<noteq> sep) (rev p)) < length p"
      by (cases "takeWhile (\<lambda>c. c \<noteq> sep) (rev p)") simp_all
    with h0 [of p] show ?thesis by simp
  qed
  have "length (fst (makedirs_split name)) < length name"
  proof (cases "snd (os_path_split name) = []")
    case True
    then have ms: "makedirs_split name = os_path_split (fst (os_path_split name))"
      by (simp add: makedirs_split_def split_beta)
    with a have "snd (os_path_split (fst (os_path_split name))) \<noteq> []" by simp
    from lt [OF this] le [of name] ms show ?thesis by simp
  next
    case False
    then have "makedirs_split name = os_path_split name"
      by (simp add: makedirs_split_def split_beta)
    with lt [OF False] show ?thesis by simp
  qed
  then show "((fst (makedirs_split name), exist_ok, w), name, exist_ok, w)
      \<in> measure (\<lambda>(name, exist_ok, w). length name)"
    by simp
qed

subsection \<open>\<open>subprocess.run\<close> and \<open>print\<close>\<close>

text \<open>
  \<open>subprocess.run(args, cwd=dir, check=check)\<close>: the child inherits the environment
  of the interpreter; with \<open>check\<close> a non-zero return code raises
  \<open>CalledProcessError\<close>. The result is the return code of the completed process. The
  model covers a child that comes to an end.
\<close>

definition subprocess_run :: "string list \<Rightarrow> string \<Rightarrow> bool \<Rightarrow> int io" where
  "subprocess_run args dir check w =
     (let w1 = w\<lparr>trace := trace w @ [Exec args dir]\<rparr>
      in case exec_program w args dir (environ w) (fs w) of
           Inl e \<Rightarrow> (Inl e, w1)
         | Inr (returncode, t) \<Rightarrow>
             if check \<and> returncode \<noteq> 0
             then (Inl (CalledProcessError args returncode), w1\<lparr>fs := t\<rparr>)
             else (Inr returncode, w1\<lparr>fs := t\<rparr>))"

text \<open>\<open>print(s)\<close> writes the string and a newline to standard output.\<close>

definition py_print :: "string \<Rightarrow> unit io" where
  "py_print s w = (Inr (), w\<lparr>trace := trace w @ [Write (s @ [CHR 0x0A])]\<rparr>)"

subsection \<open>Module-level configuration\<close>

datatype pyval = PyInt int | PyBool bool

text \<open>
  The names bound by evaluating the module, together with \<open>__file__\<close>, which the loader
  binds before the module body runs.
\<close>

record conf_globals =
  dunder_file :: string
  project :: string
  copyright :: string
  author :: string
  release :: string
  version :: string
  extensions :: "string list"
  templates_path :: "string list"
  exclude_patterns :: "string list"
  language :: string
  html_theme :: string
  html_static_path :: "string list"
  html_theme_options :: "(string \<times> pyval) list"
  read_the_docs_build :: bool
  breathe_projects :: "(string \<times> string) list"
  breathe_default_project :: string
  breathe_default_members :: "string \<times> string"
  todo_include_todos :: bool

text \<open>\<open>os.environ.get(key, default)\<close>, with \<open>None\<close> of Python as \<open>None\<close> of HOL.\<close>

definition os_environ_get :: "world \<Rightarrow> string \<Rightarrow> string option \<Rightarrow> string option" where
  "os_environ_get w key dflt =
     (case environ w key of None \<Rightarrow> dflt | Some v \<Rightarrow> Some v)"

text \<open>
  Evaluation of the module body, top to bottom, in a world \<open>w\<close> and with \<open>__file__\<close> bound
  to \<open>f\<close>. The body changes nothing outside the interpreter.
\<close>

definition conf_py :: "string \<Rightarrow> world \<Rightarrow> conf_globals" where
  "conf_py f w =
     \<lparr> dunder_file = f,
       project = ''SAPPOROBDD 2.0'',
       copyright = ''2024, SAPPOROBDD Team'',
       author = ''SAPPOROBDD Team'',
       release = ''2.0.0'',
       version = ''2.0'',
       extensions =
         [''breathe'',
          ''sphinx.ext.autodoc'',
          ''sphinx.ext.viewcode'',
          ''sphinx.ext.todo'',
          ''sphinx.ext.mathjax''],
       templates_path = [''_templates''],
       exclude_patterns = [''_build'', ''Thumbs.db'', ''.DS_Store''],
       language = ''ja'',
       html_theme = ''sphinx_rtd_theme'',
       html_static_path = [''_static''],
       html_theme_options =
         [(''navigation_depth'', PyInt 4),
          (''collapse_navigation'', PyBool False),
          (''sticky_navigation'', PyBool True)],
       read_the_docs_build = (os_environ_get w ''READTHEDOCS'' None = Some ''True''),
       breathe_projects = [(''SAPPOROBDD2'', ''_doxygen/xml'')],
       breathe_default_project = ''SAPPOROBDD2'',
       breathe_default_members = (''members'', ''undoc-members''),
       todo_include_todos = True \<rparr>"

subsection \<open>The build hook\<close>

text \<open>
  The \<open>try\<close> statement of \<open>run_doxygen\<close>: the call of the external program with its two
  handlers. An exception of any other class leaves the statement.
\<close>

definition try_doxygen :: "string \<Rightarrow> unit io" where
  "try_doxygen docs_dir w =
     (case subprocess_run [''doxygen'', ''Doxyfile''] docs_dir True w of
        (Inr r, w1) \<Rightarrow>
          py_print ''Doxygen XML generation completed successfully'' w1
      | (Inl (CalledProcessError cmd rc), w1) \<Rightarrow>
          py_print (''Warning: Doxygen failed with error: '' @
                    str_exception w1 (CalledProcessError cmd rc)) w1
      | (Inl FileNotFoundError, w1) \<Rightarrow>
          py_print ''Warning: Doxygen not found, skipping XML generation'' w1
      | (Inl e, w1) \<Rightarrow> (Inl e, w1))"

text \<open>
  \<open>run_doxygen(app)\<close>, with the module's globals \<open>g\<close> in scope. The directory creation
  stands before the \<open>try\<close> statement, so an exception from it leaves the function.
\<close>

definition run_doxygen :: "conf_globals \<Rightarrow> 'app \<Rightarrow> unit io" where
  "run_doxygen g app w =
     (let docs_dir = os_path_dirname (os_path_abspath w (dunder_file g));
          doxygen_dir = os_path_join docs_dir ''_doxygen''
      in case os_makedirs doxygen_dir True w of
           (Inl e, w1) \<Rightarrow> (Inl e, w1)
         | (Inr u, w1) \<Rightarrow> try_doxygen docs_dir w1)"

subsection \<open>Registration with the documentation builder\<close>

text \<open>
  The functions of the module that can serve as event handlers, and the part of the
  builder's application object that \<open>connect\<close> works on: per event name the list of
  registered listeners, and the counter the listener ids are drawn from. Whatever else
  the application object holds is the record's extension.
\<close>

datatype handler_fn = Run_doxygen

record listener =
  listener_id :: nat
  handler :: handler_fn
  priority :: int

record app =
  listeners :: "string \<Rightarrow> listener list"
  next_listener_id :: nat

definition call_handler :: "conf_globals \<Rightarrow> handler_fn \<Rightarrow> 'app \<Rightarrow> unit io" where
  "call_handler g h a = (case h of Run_doxygen \<Rightarrow> run_doxygen g a)"

text \<open>\<open>app.connect(event, callback, priority=500)\<close>; the result is the listener id.\<close>

definition app_connect ::
  "string \<Rightarrow> handler_fn \<Rightarrow> int \<Rightarrow> 'a app_scheme \<Rightarrow> nat \<times> 'a app_scheme" where
  "app_connect event callback prio a =
     (next_listener_id a,
      a\<lparr>listeners := (listeners a)
           (event := listeners a event @
              [\<lparr>listener_id = next_listener_id a, handler = callback, priority = prio\<rparr>]),
        next_listener_id := Suc (next_listener_id a)\<rparr>)"

text \<open>\<open>setup(app)\<close>: the listener id that \<open>connect\<close> returns is dropped.\<close>

definition setup_app :: "'a app_scheme \<Rightarrow> 'a app_scheme" where
  "setup_app a = snd (app_connect ''builder-inited'' Run_doxygen 500 a)"

subsection \<open>Observations\<close>

text \<open>
  The values of the hook's two local variables, the events an execution adds to the
  log, the three kinds of event, and a change of one environment variable.
\<close>

definition docs_dir_of :: "conf_globals \<Rightarrow> world \<Rightarrow> string" where
  "docs_dir_of g w = os_path_dirname (os_path_abspath w (dunder_file g))"

definition doxygen_dir_of :: "conf_globals \<Rightarrow> world \<Rightarrow> string" where
  "doxygen_dir_of g w = os_path_join (docs_dir_of g w) ''_doxygen''"

definition new_events :: "world \<Rightarrow> world \<Rightarrow> event list" where
  "new_events w w' = drop (length (trace w)) (trace w')"

fun is_exec :: "event \<Rightarrow> bool" where
  "is_exec (Exec args dir) = True"
| "is_exec e = False"

fun is_write :: "event \<Rightarrow> bool" where
  "is_write (Write s) = True"
| "is_write e = False"

fun is_mkdir :: "event \<Rightarrow> bool" where
  "is_mkdir (Mkdir p) = True"
| "is_mkdir e = False"

definition set_env :: "string \<Rightarrow> string option \<Rightarrow> world \<Rightarrow> world" where
  "set_env key v w = w\<lparr>environ := (environ w)(key := v)\<rparr>"

text \<open>
  A name that \<open>os.path.join\<close> appends as it is and that resolves to itself: it
  holds no separator and is none of the empty name, \<open>.\<close> and \<open>..\<close>.
\<close>

definition good_name :: "string \<Rightarrow> bool" where
  "good_name t = (sep \<notin> set t \<and> t \<noteq> [] \<and> t \<noteq> ''.'' \<and> t \<noteq> ''..'')"

subsection \<open>Sample worlds\<close>

text \<open>
  A machine with the documentation sources in \<open>/srv/docs\<close> and no \<open>doxygen\<close> program;
  the same with a program that exits with a given status, or that fails to start with a
  given exception; the same with a regular file where the output directory belongs; and
  the same with the output directory in place.
\<close>

definition world_fresh :: world where
  "world_fresh =
     \<lparr> fs = [[] \<mapsto> Dir, [''srv''] \<mapsto> Dir, [''srv'', ''docs''] \<mapsto> Dir,
              [''srv'', ''docs'', ''conf.py''] \<mapsto> File,
              [''srv'', ''docs'', ''Doxyfile''] \<mapsto> File],
       cwd = ''/srv'',
       environ = Map.empty,
       trace = [],
       exec_program = (\<lambda>args dir env t. Inl FileNotFoundError),
       str_exception = (\<lambda>e. ''<exception>'') \<rparr>"

definition world_exit :: "int \<Rightarrow> world" where
  "world_exit rc = world_fresh\<lparr>exec_program := (\<lambda>args dir env t. Inr (rc, t))\<rparr>"

definition world_blocked :: world where
  "world_blocked =
     world_fresh\<lparr>fs := (fs world_fresh)([''srv'', ''docs'', ''_doxygen''] \<mapsto> File)\<rparr>"

definition conf_file :: string where
  "conf_file = ''/srv/docs/conf.py''"

definition world_built :: world where
  "world_built =
     world_fresh\<lparr>fs := (fs world_fresh)([''srv'', ''docs'', ''_doxygen''] \<mapsto> Dir)\<rparr>"

definition world_spawn_error :: "exn \<Rightarrow> world" where
  "world_spawn_error e = world_fresh\<lparr>exec_program := (\<lambda>args dir env t. Inl e)\<rparr>"

section \<open>Auxiliary facts\<close>

text \<open>
  \<open>os.makedirs\<close> calls itself under a condition; its defining equation is applied where
  needed only.
\<close>

declare os_makedirs.simps [simp del]

subsection \<open>Splitting strings\<close>




subsection \<open>Names of a path below a directory\<close>


lemma good_doxygen: "good_name ''_doxygen''"
  by (simp add: good_name_def sep_def)

lemma endswith_sep: "endswith d [sep] = (d \<noteq> [] \<and> last d = sep)"
proof (cases d rule: rev_cases)
  case Nil
  then show ?thesis by (simp add: endswith_def)
next
  case (snoc ys y)
  then show ?thesis by (simp add: endswith_def)
qed

lemma startswith_sep: "startswith s [sep] = (s \<noteq> [] \<and> hd s = sep)"
  by (cases s) (simp_all add: startswith_def)

lemma join_good:
  "good_name t \<Longrightarrow>
     os_path_join d t = (if d = [] \<or> last d = sep then d @ t else d @ sep # t)"
  by (cases t) (auto simp add: os_path_join_def endswith_sep startswith_sep good_name_def)

lemma split_tail_append:
  assumes "sep \<notin> set t" and "d = [] \<or> last d = sep"
  shows "snd (os_path_split (d @ t)) = t"
proof -
  have "takeWhile (\<lambda>c. c \<noteq> sep) (rev t @ rev d) = rev t @ takeWhile (\<lambda>c. c \<noteq> sep) (rev d)"
    using assms(1) by (intro takeWhile_append2) auto
  moreover have "takeWhile (\<lambda>c. c \<noteq> sep) (rev d) = []"
    using assms(2) by (cases d rule: rev_cases) auto
  ultimately show ?thesis
    by (simp add: os_path_split_def Let_def)
qed

lemma split_join_tail:
  assumes "good_name t"
  shows "snd (os_path_split (os_path_join d t)) = t"
proof (cases "d = [] \<or> last d = sep")
  case True
  with assms show ?thesis
    by (simp add: join_good split_tail_append good_name_def)
next
  case False
  then have "os_path_join d t = (d @ [sep]) @ t"
    using assms by (simp add: join_good)
  moreover have "snd (os_path_split ((d @ [sep]) @ t)) = t"
    using assms by (intro split_tail_append) (simp_all add: good_name_def)
  ultimately show ?thesis by simp
qed

lemma makedirs_split_join:
  assumes "good_name t"
  shows "makedirs_split (os_path_join d t) = os_path_split (os_path_join d t)"
    and "snd (makedirs_split (os_path_join d t)) = t"
proof -
  have t: "snd (os_path_split (os_path_join d t)) = t"
    by (rule split_join_tail [OF assms])
  with assms have "snd (os_path_split (os_path_join d t)) \<noteq> []"
    by (simp add: good_name_def)
  then show "makedirs_split (os_path_join d t) = os_path_split (os_path_join d t)"
    by (simp add: makedirs_split_def split_beta prod_eq_iff)
  with t show "snd (makedirs_split (os_path_join d t)) = t"
    by simp
qed




subsection \<open>Resolution of a path below a directory\<close>





subsection \<open>Walking the tree\<close>



subsection \<open>Creating the output directory below an existing directory\<close>

lemma isdir_walk:
  "os_path_isdir w p = (p \<noteq> [] \<and> walk (fs w) [] (path_names w p) = Inr Dir)"
  by (auto simp add: os_path_isdir_def os_stat_def split: sum.splits)

lemma exists_walk:
  "os_path_exists w p = (p \<noteq> [] \<and> (\<exists>k. walk (fs w) [] (path_names w p) = Inr k))"
  by (auto simp add: os_path_exists_def os_stat_def split: sum.splits)

lemma isdir_exists: "os_path_isdir w p \<Longrightarrow> os_path_exists w p"
  by (simp add: isdir_walk exists_walk)







lemma isdir_trace_irrelevant: "os_path_isdir (w\<lparr>trace := evs\<rparr>) p = os_path_isdir w p"
  by (simp add: os_path_isdir_def os_stat_def path_names_def)

subsection \<open>What the library calls leave unchanged\<close>

lemma mkdir_world:
  "snd (os_mkdir p w) = w\<lparr>trace := trace w @ [Mkdir p], fs := fs (snd (os_mkdir p w))\<rparr>"
  by (simp add: os_mkdir_def Let_def split: sum.splits kind.splits option.splits)

lemma makedirs_leaf_world:
  "\<exists>f. snd (makedirs_leaf name ok w) = w\<lparr>trace := trace w @ [Mkdir name], fs := f\<rparr>"
proof -
  have "snd (makedirs_leaf name ok w) = snd (os_mkdir name w)"
    by (cases "os_mkdir name w") (auto simp add: makedirs_leaf_def split: sum.splits)
  with mkdir_world [of name w] show ?thesis by metis
qed

lemma makedirs_world:
  "\<exists>evs f. snd (os_makedirs name ok w) = w\<lparr>trace := trace w @ evs, fs := f\<rparr> \<and>
            list_all is_mkdir evs"
proof (induction name ok w rule: os_makedirs.induct)
  case (1 name ok w)
  let ?head = "fst (makedirs_split name)" and ?tail = "snd (makedirs_split name)"
  show ?case
  proof (cases "?head \<noteq> [] \<and> ?tail \<noteq> [] \<and> \<not> os_path_exists w ?head")
    case False
    then have "os_makedirs name ok w = makedirs_leaf name ok w"
      by (subst os_makedirs.simps) auto
    moreover obtain f where
      "snd (makedirs_leaf name ok w) = w\<lparr>trace := trace w @ [Mkdir name], fs := f\<rparr>"
      using makedirs_leaf_world by blast
    ultimately have
      "snd (os_makedirs name ok w) = w\<lparr>trace := trace w @ [Mkdir name], fs := f\<rparr> \<and>
       list_all is_mkdir [Mkdir name]"
      by simp
    then show ?thesis by blast
  next
    case True
    obtain r w1 where rec: "os_makedirs ?head ok w = (r, w1)"
      by (cases "os_makedirs ?head ok w")
    from "1.IH" [OF True] rec obtain evs f where
      w1: "w1 = w\<lparr>trace := trace w @ evs, fs := f\<rparr>" and evs: "list_all is_mkdir evs"
      by auto
    obtain f' where
      leaf: "snd (makedirs_leaf name ok w1) = w1\<lparr>trace := trace w1 @ [Mkdir name], fs := f'\<rparr>"
      using makedirs_leaf_world by blast
    have "snd (os_makedirs name ok w) = w1 \<or>
          snd (os_makedirs name ok w) = snd (makedirs_leaf name ok w1)"
      using True rec by (subst (1 2) os_makedirs.simps) (auto split: sum.splits)
    then show ?thesis
    proof
      assume "snd (os_makedirs name ok w) = w1"
      with w1 evs show ?thesis by blast
    next
      assume "snd (os_makedirs name ok w) = snd (makedirs_leaf name ok w1)"
      with leaf w1 have
        "snd (os_makedirs name ok w) = w\<lparr>trace := trace w @ (evs @ [Mkdir name]), fs := f'\<rparr>"
        by simp
      moreover have "list_all is_mkdir (evs @ [Mkdir name])"
        using evs by simp
      ultimately show ?thesis by blast
    qed
  qed
qed

lemma makedirs_ok_last:
  assumes ok: "fst (os_makedirs name ok w) = Inr ()"
    and tail: "snd (makedirs_split name) \<noteq> ''.''"
  shows "\<exists>evs. trace (snd (os_makedirs name ok w)) = trace w @ evs @ [Mkdir name] \<and>
               list_all is_mkdir evs"
proof -
  let ?head = "fst (makedirs_split name)" and ?tail = "snd (makedirs_split name)"
  show ?thesis
  proof (cases "?head \<noteq> [] \<and> ?tail \<noteq> [] \<and> \<not> os_path_exists w ?head")
    case False
    then have "os_makedirs name ok w = makedirs_leaf name ok w"
      by (subst os_makedirs.simps) auto
    moreover obtain f where
      "snd (makedirs_leaf name ok w) = w\<lparr>trace := trace w @ [Mkdir name], fs := f\<rparr>"
      using makedirs_leaf_world by blast
    ultimately have "trace (snd (os_makedirs name ok w)) = trace w @ [] @ [Mkdir name] \<and>
       list_all is_mkdir []"
      by simp
    then show ?thesis by blast
  next
    case True
    obtain r w1 where rec: "os_makedirs ?head ok w = (r, w1)"
      by (cases "os_makedirs ?head ok w")
    from makedirs_world [of ?head ok w] rec obtain evs f where
      w1: "w1 = w\<lparr>trace := trace w @ evs, fs := f\<rparr>" and evs: "list_all is_mkdir evs"
      by auto
    obtain f' where
      leaf: "snd (makedirs_leaf name ok w1) = w1\<lparr>trace := trace w1 @ [Mkdir name], fs := f'\<rparr>"
      using makedirs_leaf_world by blast
    have "os_makedirs name ok w = makedirs_leaf name ok w1"
      using True rec ok tail by (subst (asm) os_makedirs.simps, subst os_makedirs.simps)
        (auto split: sum.splits if_splits)
    with leaf w1 have "trace (snd (os_makedirs name ok w)) = trace w @ evs @ [Mkdir name]"
      by simp
    with evs show ?thesis by blast
  qed
qed

subsection \<open>The environment is not read\<close>

lemma path_names_environ: "path_names (w\<lparr>environ := e\<rparr>) p = path_names w p"
  by (simp add: path_names_def)

lemma exists_environ: "os_path_exists (w\<lparr>environ := e\<rparr>) p = os_path_exists w p"
  by (simp add: os_path_exists_def os_stat_def path_names_environ)

lemma isdir_environ: "os_path_isdir (w\<lparr>environ := e\<rparr>) p = os_path_isdir w p"
  by (simp add: os_path_isdir_def os_stat_def path_names_environ)

lemma mkdir_environ:
  "os_mkdir p (w\<lparr>environ := e\<rparr>) = (fst (os_mkdir p w), (snd (os_mkdir p w))\<lparr>environ := e\<rparr>)"
  by (simp add: os_mkdir_def Let_def path_names_environ
      split: sum.splits kind.splits option.splits)

lemma makedirs_leaf_environ:
  "makedirs_leaf name ok (w\<lparr>environ := e\<rparr>) =
     (fst (makedirs_leaf name ok w), (snd (makedirs_leaf name ok w))\<lparr>environ := e\<rparr>)"
  by (cases "os_mkdir name w")
     (simp add: makedirs_leaf_def mkdir_environ isdir_environ split: sum.splits)

lemma makedirs_environ:
  "os_makedirs name ok (w\<lparr>environ := e\<rparr>) =
     (fst (os_makedirs name ok w), (snd (os_makedirs name ok w))\<lparr>environ := e\<rparr>)"
proof (induction name ok w rule: os_makedirs.induct)
  case (1 name ok w)
  let ?head = "fst (makedirs_split name)" and ?tail = "snd (makedirs_split name)"
  show ?case
  proof (cases "?head \<noteq> [] \<and> ?tail \<noteq> [] \<and> \<not> os_path_exists w ?head")
    case False
    then have "os_makedirs name ok w = makedirs_leaf name ok w"
      and "os_makedirs name ok (w\<lparr>environ := e\<rparr>) = makedirs_leaf name ok (w\<lparr>environ := e\<rparr>)"
      by (subst os_makedirs.simps, auto simp add: exists_environ)+
    then show ?thesis
      by (simp add: makedirs_leaf_environ)
  next
    case True
    obtain r w1 where rec: "os_makedirs ?head ok w = (r, w1)"
      by (cases "os_makedirs ?head ok w")
    with "1.IH" [OF True] have rec': "os_makedirs ?head ok (w\<lparr>environ := e\<rparr>) = (r, w1\<lparr>environ := e\<rparr>)"
      by simp
    show ?thesis
      using True
      by (subst (1 2 3) os_makedirs.simps)
         (simp add: exists_environ rec rec' makedirs_leaf_environ split: sum.splits)
  qed
qed

subsection \<open>The try statement\<close>

lemma subprocess_run_world:
  "\<exists>f. snd (subprocess_run args dir check w) = w\<lparr>trace := trace w @ [Exec args dir], fs := f\<rparr>"
proof -
  have a: "w\<lparr>trace := trace w @ [Exec args dir]\<rparr> =
           w\<lparr>trace := trace w @ [Exec args dir], fs := fs w\<rparr>"
    by simp
  show ?thesis
    by (auto simp add: subprocess_run_def Let_def split: sum.splits intro: a)
qed

lemma try_doxygen_trace:
  "\<exists>out. trace (snd (try_doxygen d w)) =
            trace w @ Exec [''doxygen'', ''Doxyfile''] d # out \<and> list_all is_write out"
proof -
  obtain r w1 where run: "subprocess_run [''doxygen'', ''Doxyfile''] d True w = (r, w1)"
    by (cases "subprocess_run [''doxygen'', ''Doxyfile''] d True w")
  with subprocess_run_world [of "[''doxygen'', ''Doxyfile'']" d True w]
  have t: "trace w1 = trace w @ [Exec [''doxygen'', ''Doxyfile''] d]"
    by auto
  have "trace (snd (try_doxygen d w)) = trace w1 \<or>
        (\<exists>s. trace (snd (try_doxygen d w)) = trace w1 @ [Write s])"
    by (auto simp add: try_doxygen_def run py_print_def split: sum.splits exn.splits)
  then show ?thesis
  proof
    assume "trace (snd (try_doxygen d w)) = trace w1"
    with t have "trace (snd (try_doxygen d w)) =
        trace w @ Exec [''doxygen'', ''Doxyfile''] d # [] \<and> list_all is_write []"
      by simp
    then show ?thesis by blast
  next
    assume "\<exists>s. trace (snd (try_doxygen d w)) = trace w1 @ [Write s]"
    then obtain s where "trace (snd (try_doxygen d w)) = trace w1 @ [Write s]" ..
    with t have "trace (snd (try_doxygen d w)) =
        trace w @ Exec [''doxygen'', ''Doxyfile''] d # [Write s] \<and> list_all is_write [Write s]"
      by simp
    then show ?thesis by blast
  qed
qed

lemma run_doxygen_unfold:
  "run_doxygen g app w =
     (case os_makedirs (doxygen_dir_of g w) True w of
        (Inl e, w1) \<Rightarrow> (Inl e, w1)
      | (Inr u, w1) \<Rightarrow> try_doxygen (docs_dir_of g w) w1)"
  unfolding run_doxygen_def doxygen_dir_of_def docs_dir_of_def Let_def by (rule refl)

lemma run_doxygen_raised:
  "os_makedirs (doxygen_dir_of g w) True w = (Inl e, w1) \<Longrightarrow> run_doxygen g app w = (Inl e, w1)"
  by (simp add: run_doxygen_unfold)

lemma run_doxygen_created:
  "os_makedirs (doxygen_dir_of g w) True w = (Inr u, w1) \<Longrightarrow>
     run_doxygen g app w = try_doxygen (docs_dir_of g w) w1"
  by (simp add: run_doxygen_unfold)

lemma doxygen_tail: "snd (makedirs_split (doxygen_dir_of g w)) = ''_doxygen''"
  unfolding doxygen_dir_of_def by (rule makedirs_split_join(2) [OF good_doxygen])

lemma is_mkdir_not_exec: "list_all is_mkdir evs \<Longrightarrow> filter is_exec evs = []"
  by (induction evs) (auto elim: is_mkdir.elims)

lemma is_write_not_exec: "list_all is_write evs \<Longrightarrow> filter is_exec evs = []"
  by (induction evs) (auto elim: is_write.elims)

subsection \<open>Events of one execution\<close>

lemma new_events_append: "trace w' = trace w @ evs \<Longrightarrow> new_events w w' = evs"
  by (simp add: new_events_def)

lemma run_doxygen_events_created:
  assumes ok: "fst (os_makedirs (doxygen_dir_of g w) True w) = Inr ()"
  shows "\<exists>mks out. new_events w (snd (run_doxygen g app w)) =
            mks @ Mkdir (doxygen_dir_of g w) #
              Exec [''doxygen'', ''Doxyfile''] (docs_dir_of g w) # out \<and>
          list_all is_mkdir mks \<and> list_all is_write out"
proof -
  obtain w1 where mk: "os_makedirs (doxygen_dir_of g w) True w = (Inr (), w1)"
    using ok by (cases "os_makedirs (doxygen_dir_of g w) True w") auto
  have "snd (makedirs_split (doxygen_dir_of g w)) \<noteq> ''.''"
    by (simp add: doxygen_tail)
  from makedirs_ok_last [OF ok this] mk obtain mks where
    t1: "trace w1 = trace w @ mks @ [Mkdir (doxygen_dir_of g w)]" and mks: "list_all is_mkdir mks"
    by auto
  obtain out where
    t2: "trace (snd (try_doxygen (docs_dir_of g w) w1)) =
           trace w1 @ Exec [''doxygen'', ''Doxyfile''] (docs_dir_of g w) # out"
    and out: "list_all is_write out"
    using try_doxygen_trace by blast
  have "trace (snd (run_doxygen g app w)) =
          trace w @ (mks @ Mkdir (doxygen_dir_of g w) #
             Exec [''doxygen'', ''Doxyfile''] (docs_dir_of g w) # out)"
    by (simp add: run_doxygen_created [OF mk] t1 t2)
  then have "new_events w (snd (run_doxygen g app w)) =
          mks @ Mkdir (doxygen_dir_of g w) #
             Exec [''doxygen'', ''Doxyfile''] (docs_dir_of g w) # out"
    by (rule new_events_append)
  with mks out show ?thesis by blast
qed

lemma run_doxygen_events_raised:
  assumes bad: "fst (os_makedirs (doxygen_dir_of g w) True w) \<noteq> Inr ()"
  shows "list_all is_mkdir (new_events w (snd (run_doxygen g app w)))"
proof -
  obtain e w1 where mk: "os_makedirs (doxygen_dir_of g w) True w = (Inl e, w1)"
    using bad by (cases "os_makedirs (doxygen_dir_of g w) True w"; cases "fst (os_makedirs (doxygen_dir_of g w) True w)") auto
  from makedirs_world [of "doxygen_dir_of g w" True w] mk obtain evs where
    "trace w1 = trace w @ evs" and evs: "list_all is_mkdir evs"
    by auto
  then have "new_events w (snd (run_doxygen g app w)) = evs"
    by (simp add: run_doxygen_raised [OF mk] new_events_append)
  with evs show ?thesis by simp
qed

subsection \<open>The sample worlds, evaluated\<close>

lemmas path_defs = sep_def startswith_def endswith_def rstrip_def os_path_isabs_def
  os_path_join_def os_path_split_def os_path_dirname_def normpath_step_def
  os_path_normpath_def os_getcwd_def os_path_abspath_def

lemma sample_cwd:
  "cwd world_fresh = ''/srv''" "cwd world_blocked = ''/srv''" "cwd world_built = ''/srv''"
  "cwd (world_exit rc) = ''/srv''" "cwd (world_spawn_error e) = ''/srv''"
  by (simp_all add: world_fresh_def world_blocked_def world_built_def world_exit_def
      world_spawn_error_def)

lemma sample_docs_dir:
  "cwd w = ''/srv'' \<Longrightarrow> docs_dir_of (conf_py conf_file w') w = ''/srv/docs''"
  by (simp add: docs_dir_of_def conf_py_def conf_file_def path_defs)

lemma sample_doxygen_dir:
  "cwd w = ''/srv'' \<Longrightarrow> doxygen_dir_of (conf_py conf_file w') w = ''/srv/docs/_doxygen''"
  by (simp add: doxygen_dir_of_def sample_docs_dir) (simp add: path_defs)

lemma sample_split: "makedirs_split ''/srv/docs/_doxygen'' = (''/srv/docs'', ''_doxygen'')"
  by (simp add: makedirs_split_def path_defs)

lemma sample_names:
  "path_names w ''/srv/docs/_doxygen'' = [''srv'', ''docs'', ''_doxygen'']"
  "path_names w ''/srv/docs'' = [''srv'', ''docs'']"
  by (simp_all add: path_names_def path_defs name_step_def)

lemma sample_fs:
  "fs (world_exit rc) = fs world_fresh" "fs (world_spawn_error e) = fs world_fresh"
  by (simp_all add: world_exit_def world_spawn_error_def)

lemma fresh_isdir_docs:
  "fs w = fs world_fresh \<Longrightarrow> os_path_isdir w ''/srv/docs''"
  by (simp add: isdir_walk sample_names) (simp add: world_fresh_def)


lemma fresh_tree:
  "walk (fs world_fresh) [] [''srv'', ''docs''] = Inr Dir"
  "fs world_fresh [''srv'', ''docs'', ''_doxygen''] = None"
  by (simp_all add: world_fresh_def)

lemma fresh_makedirs:
  assumes "fs w = fs world_fresh"
  shows "os_makedirs ''/srv/docs/_doxygen'' True w =
     (Inr (), w\<lparr>trace := trace w @ [Mkdir ''/srv/docs/_doxygen''],
                 fs := (fs world_fresh)([''srv'', ''docs'', ''_doxygen''] \<mapsto> Dir)\<rparr>)"
proof -
  have "os_path_exists w ''/srv/docs''"
    using fresh_isdir_docs [OF assms] by (rule isdir_exists)
  then have "os_makedirs ''/srv/docs/_doxygen'' True w = makedirs_leaf ''/srv/docs/_doxygen'' True w"
    by (subst os_makedirs.simps) (simp add: sample_split)
  moreover have "os_mkdir ''/srv/docs/_doxygen'' w =
     (Inr (), w\<lparr>trace := trace w @ [Mkdir ''/srv/docs/_doxygen''],
                 fs := (fs world_fresh)([''srv'', ''docs'', ''_doxygen''] \<mapsto> Dir)\<rparr>)"
    by (simp add: os_mkdir_def Let_def sample_names assms fresh_tree del: walk.simps)
  ultimately show ?thesis
    by (simp add: makedirs_leaf_def)
qed

lemma blocked_tree:
  "walk (fs world_blocked) [] [''srv'', ''docs''] = Inr Dir"
  "fs world_blocked [''srv'', ''docs'', ''_doxygen''] = Some File"
  "walk (fs world_blocked) [] [''srv'', ''docs'', ''_doxygen''] = Inr File"
  by (simp_all add: world_blocked_def world_fresh_def)

lemma blocked_makedirs:
  "os_makedirs ''/srv/docs/_doxygen'' True world_blocked =
     (Inl FileExistsError, world_blocked\<lparr>trace := [Mkdir ''/srv/docs/_doxygen'']\<rparr>)"
proof -
  have "os_path_exists world_blocked ''/srv/docs''"
    by (simp add: exists_walk sample_names blocked_tree del: walk.simps)
  then have "os_makedirs ''/srv/docs/_doxygen'' True world_blocked =
             makedirs_leaf ''/srv/docs/_doxygen'' True world_blocked"
    by (subst os_makedirs.simps) (simp add: sample_split)
  moreover have "trace world_blocked = []"
    by (simp add: world_blocked_def world_fresh_def)
  then have "os_mkdir ''/srv/docs/_doxygen'' world_blocked =
     (Inl FileExistsError, world_blocked\<lparr>trace := [Mkdir ''/srv/docs/_doxygen'']\<rparr>)"
    by (simp add: os_mkdir_def Let_def sample_names blocked_tree del: walk.simps)
  moreover have "\<not> os_path_isdir (world_blocked\<lparr>trace := [Mkdir ''/srv/docs/_doxygen'']\<rparr>)
                    ''/srv/docs/_doxygen''"
    by (simp add: isdir_trace_irrelevant isdir_walk sample_names blocked_tree del: walk.simps)
  ultimately show ?thesis
    by (simp add: makedirs_leaf_def)
qed





lemma spawn_error_run:
  assumes "exec_program w = exec_program (world_spawn_error e)"
  shows "subprocess_run [''doxygen'', ''Doxyfile''] d True w =
         (Inl e, w\<lparr>trace := trace w @ [Exec [''doxygen'', ''Doxyfile''] d]\<rparr>)"
  by (simp add: subprocess_run_def assms) (simp add: world_spawn_error_def)

lemma is_write_filter: "list_all is_write out \<Longrightarrow> filter (\<lambda>e. \<not> is_write e) out = []"
  by (induction out) auto

lemma dirs_set_env:
  "docs_dir_of (conf_py f (set_env k v w)) (set_env k v w) = docs_dir_of (conf_py f w) w"
  "doxygen_dir_of (conf_py f (set_env k v w)) (set_env k v w) = doxygen_dir_of (conf_py f w) w"
  by (simp_all add: doxygen_dir_of_def docs_dir_of_def conf_py_def set_env_def
      os_path_abspath_def os_getcwd_def)

lemma makedirs_set_env:
  "os_makedirs name ok (set_env k v w) =
     (fst (os_makedirs name ok w), set_env k v (snd (os_makedirs name ok w)))"
proof -
  obtain evs f where m: "snd (os_makedirs name ok w) = w\<lparr>trace := trace w @ evs, fs := f\<rparr>"
    using makedirs_world by blast
  have "environ (snd (os_makedirs name ok w)) = environ w"
    using arg_cong [OF m, of environ] by simp
  then have "set_env k v (snd (os_makedirs name ok w)) =
        (snd (os_makedirs name ok w))\<lparr>environ := (environ w)(k := v)\<rparr>"
    by (simp add: set_env_def)
  then show ?thesis
    by (simp add: set_env_def [of k v w] makedirs_environ)
qed

lemma try_doxygen_set_env:
  assumes "exec_program w [''doxygen'', ''Doxyfile''] d ((environ w)(k := v)) (fs w) =
           exec_program w [''doxygen'', ''Doxyfile''] d (environ w) (fs w)"
  shows "try_doxygen d (set_env k v w) =
           (fst (try_doxygen d w), set_env k v (snd (try_doxygen d w)))"
proof -
  have "subprocess_run [''doxygen'', ''Doxyfile''] d True (set_env k v w) =
        (fst (subprocess_run [''doxygen'', ''Doxyfile''] d True w),
         set_env k v (snd (subprocess_run [''doxygen'', ''Doxyfile''] d True w)))"
    using assms
    by (cases "exec_program w [''doxygen'', ''Doxyfile''] d (environ w) (fs w)")
       (auto simp add: subprocess_run_def set_env_def Let_def)
  then show ?thesis
    by (cases "subprocess_run [''doxygen'', ''Doxyfile''] d True w")
       (simp add: try_doxygen_def py_print_def set_env_def split: sum.splits exn.splits)
qed

section \<open>Properties\<close>

subsection \<open>The build hook\<close>





text \<open>
  Claim C3, amended. An execution of \<open>run_doxygen\<close> whose directory creation returns
  starts \<open>doxygen\<close> exactly once, with the argument vector \<open>doxygen Doxyfile\<close> and with
  the directory that holds \<open>conf.py\<close> as working directory. An execution whose
  directory creation raises does not start it.
\<close>

theorem doxygen_invoked_once_after_creation:
  "(fst (os_makedirs (doxygen_dir_of g w) True w) = Inr () \<longrightarrow>
      filter is_exec (new_events w (snd (run_doxygen g app w))) =
        [Exec [''doxygen'', ''Doxyfile''] (docs_dir_of g w)]) \<and>
   (fst (os_makedirs (doxygen_dir_of g w) True w) \<noteq> Inr () \<longrightarrow>
      filter is_exec (new_events w (snd (run_doxygen g app w))) = [])"
proof (intro conjI impI)
  assume "fst (os_makedirs (doxygen_dir_of g w) True w) = Inr ()"
  from run_doxygen_events_created [OF this, of app] obtain mks out where
    "new_events w (snd (run_doxygen g app w)) =
       mks @ Mkdir (doxygen_dir_of g w) # Exec [''doxygen'', ''Doxyfile''] (docs_dir_of g w) # out"
    and "list_all is_mkdir mks" and "list_all is_write out"
    by blast
  then show "filter is_exec (new_events w (snd (run_doxygen g app w))) =
        [Exec [''doxygen'', ''Doxyfile''] (docs_dir_of g w)]"
    by (simp add: is_mkdir_not_exec is_write_not_exec)
next
  assume "fst (os_makedirs (doxygen_dir_of g w) True w) \<noteq> Inr ()"
  then have "list_all is_mkdir (new_events w (snd (run_doxygen g app w)))"
    by (rule run_doxygen_events_raised)
  then show "filter is_exec (new_events w (snd (run_doxygen g app w))) = []"
    by (rule is_mkdir_not_exec)
qed

text \<open>
  Instances: one start in the sample world without the output directory, none in the
  sample world where a regular file has the output directory's name.
\<close>

theorem doxygen_invoked_once_after_creation_witness:
  "filter is_exec (new_events world_fresh
      (snd (run_doxygen (conf_py conf_file world_fresh) () world_fresh))) =
     [Exec [''doxygen'', ''Doxyfile''] ''/srv/docs''] \<and>
   filter is_exec (new_events world_blocked
      (snd (run_doxygen (conf_py conf_file world_blocked) () world_blocked))) = []"
proof -
  let ?g = "conf_py conf_file world_fresh" and ?h = "conf_py conf_file world_blocked"
  have "fst (os_makedirs (doxygen_dir_of ?g world_fresh) True world_fresh) = Inr ()"
    by (simp add: sample_doxygen_dir sample_cwd fresh_makedirs)
  with doxygen_invoked_once_after_creation [of ?g world_fresh "()"]
  have a: "filter is_exec (new_events world_fresh (snd (run_doxygen ?g () world_fresh))) =
     [Exec [''doxygen'', ''Doxyfile''] ''/srv/docs'']"
    by (simp add: sample_docs_dir sample_cwd)
  have "fst (os_makedirs (doxygen_dir_of ?h world_blocked) True world_blocked) \<noteq> Inr ()"
    by (simp add: sample_doxygen_dir sample_cwd blocked_makedirs)
  with doxygen_invoked_once_after_creation [of ?h world_blocked "()"]
  have b: "filter is_exec (new_events world_blocked (snd (run_doxygen ?h () world_blocked))) = []"
    by simp
  from a b show ?thesis by simp
qed

text \<open>
  Claim C3 as stated, for every execution, fails in the sample world where a regular file
  has the name of the output directory: \<open>os.makedirs\<close> raises \<open>FileExistsError\<close>, the
  hook ends there, and the list of program starts is empty.
\<close>

theorem doxygen_not_invoked_counterexample:
  "filter is_exec (new_events world_blocked
      (snd (run_doxygen (conf_py conf_file world_blocked) () world_blocked))) \<noteq>
     [Exec [''doxygen'', ''Doxyfile'']
        (docs_dir_of (conf_py conf_file world_blocked) world_blocked)]"
proof -
  have "run_doxygen (conf_py conf_file world_blocked) () world_blocked =
     (Inl FileExistsError, world_blocked\<lparr>trace := [Mkdir ''/srv/docs/_doxygen'']\<rparr>)"
    by (rule run_doxygen_raised) (simp add: sample_doxygen_dir sample_cwd blocked_makedirs)
  moreover have "trace world_blocked = []"
    by (simp add: world_blocked_def world_fresh_def)
  ultimately show ?thesis
    by (simp add: new_events_def)
qed

subsection \<open>Registration\<close>

text \<open>
  Claim C4. \<open>setup\<close> makes one registration: it appends \<open>run_doxygen\<close>, with the default
  priority, to the listeners of the event \<open>builder-inited\<close> and advances the listener
  counter. The listeners of every other event and the rest of the application object
  stay as they are. The registered handler is the hook \<open>run_doxygen\<close>.
\<close>

theorem setup_registers_run_doxygen:
  "listeners (setup_app a) =
     (listeners a)(''builder-inited'' := listeners a ''builder-inited'' @
        [\<lparr>listener_id = next_listener_id a, handler = Run_doxygen, priority = 500\<rparr>]) \<and>
   next_listener_id (setup_app a) = Suc (next_listener_id a) \<and>
   app.more (setup_app a) = app.more a \<and>
   call_handler g Run_doxygen = run_doxygen g"
  by (simp add: setup_app_def app_connect_def call_handler_def fun_eq_iff)

subsection \<open>Module-level values\<close>

text \<open>
  Claim C5. Evaluating the module reads the environment variable \<open>READTHEDOCS\<close> and binds
  \<open>read_the_docs_build\<close> to true exactly when the variable is set to the string \<open>True\<close>;
  for any other value, and when the variable is unset, it is false.
\<close>

theorem read_the_docs_build_iff:
  "read_the_docs_build (conf_py f w) = (environ w ''READTHEDOCS'' = Some ''True'')"
  by (cases "environ w ''READTHEDOCS''") (simp_all add: conf_py_def os_environ_get_def)

text \<open>
  Claim C6. The static configuration values are the declared literals: \<open>project\<close>,
  \<open>release\<close>, \<open>version\<close>, \<open>language\<close>, \<open>html_theme\<close>, \<open>breathe_default_project\<close> and
  the five-element list \<open>extensions\<close>, whatever the world and the module's file name.
\<close>

theorem static_configuration_values:
  "project (conf_py f w) = ''SAPPOROBDD 2.0'' \<and>
   release (conf_py f w) = ''2.0.0'' \<and>
   version (conf_py f w) = ''2.0'' \<and>
   language (conf_py f w) = ''ja'' \<and>
   html_theme (conf_py f w) = ''sphinx_rtd_theme'' \<and>
   breathe_default_project (conf_py f w) = ''SAPPOROBDD2'' \<and>
   extensions (conf_py f w) =
     [''breathe'', ''sphinx.ext.autodoc'', ''sphinx.ext.viewcode'',
      ''sphinx.ext.todo'', ''sphinx.ext.mathjax''] \<and>
   length (extensions (conf_py f w)) = 5"
  by (simp add: conf_py_def)

subsection \<open>Exceptions, independence and order\<close>

text \<open>
  Claim C7. An exception raised by the directory creation leaves \<open>run_doxygen\<close> as it
  is, whatever its class, since the call stands outside the \<open>try\<close> statement. An
  exception raised by the call of \<open>doxygen\<close> is caught exactly when it is a
  \<open>FileNotFoundError\<close> or a \<open>CalledProcessError\<close>; one of any other class leaves the
  hook.
\<close>

theorem run_doxygen_catches_two_kinds:
  "(os_makedirs (doxygen_dir_of g w) True w = (Inl e, w1) \<longrightarrow>
      run_doxygen g app w = (Inl e, w1)) \<and>
   (os_makedirs (doxygen_dir_of g w) True w = (Inr (), w1) \<and>
    subprocess_run [''doxygen'', ''Doxyfile''] (docs_dir_of g w) True w1 = (Inl e', w2) \<longrightarrow>
      fst (run_doxygen g app w) =
        (if e' = FileNotFoundError \<or> (\<exists>cmd rc. e' = CalledProcessError cmd rc)
         then Inr () else Inl e'))"
proof (intro conjI impI)
  assume "os_makedirs (doxygen_dir_of g w) True w = (Inl e, w1)"
  then show "run_doxygen g app w = (Inl e, w1)"
    by (rule run_doxygen_raised)
next
  assume a: "os_makedirs (doxygen_dir_of g w) True w = (Inr (), w1) \<and>
    subprocess_run [''doxygen'', ''Doxyfile''] (docs_dir_of g w) True w1 = (Inl e', w2)"
  then have r: "run_doxygen g app w = try_doxygen (docs_dir_of g w) w1"
    by (simp add: run_doxygen_created)
  from a show "fst (run_doxygen g app w) =
        (if e' = FileNotFoundError \<or> (\<exists>cmd rc. e' = CalledProcessError cmd rc)
         then Inr () else Inl e')"
    by (cases e') (simp_all add: r try_doxygen_def py_print_def)
qed

text \<open>
  Instances: a regular file under the output directory's name (\<open>FileExistsError\<close> from
  \<open>os.makedirs\<close> reaches the caller), a program that cannot be started for lack of
  permission (\<open>PermissionError\<close> reaches the caller), and a missing program (caught).
\<close>

theorem run_doxygen_catches_two_kinds_witness:
  "run_doxygen (conf_py conf_file world_blocked) () world_blocked =
     (Inl FileExistsError, world_blocked\<lparr>trace := [Mkdir ''/srv/docs/_doxygen'']\<rparr>) \<and>
   fst (run_doxygen (conf_py conf_file (world_spawn_error PermissionError)) ()
          (world_spawn_error PermissionError)) = Inl PermissionError \<and>
   fst (run_doxygen (conf_py conf_file (world_spawn_error FileNotFoundError)) ()
          (world_spawn_error FileNotFoundError)) = Inr ()"
proof -
  let ?g = "conf_py conf_file world_blocked"
  have mk: "os_makedirs (doxygen_dir_of ?g world_blocked) True world_blocked =
            (Inl FileExistsError, world_blocked\<lparr>trace := [Mkdir ''/srv/docs/_doxygen'']\<rparr>)"
    by (simp add: sample_doxygen_dir sample_cwd blocked_makedirs)
  have a: "run_doxygen ?g () world_blocked =
     (Inl FileExistsError, world_blocked\<lparr>trace := [Mkdir ''/srv/docs/_doxygen'']\<rparr>)"
    using run_doxygen_catches_two_kinds
      [where g = ?g and w = world_blocked and e = FileExistsError and app = "()"
         and ?w1.0 = "world_blocked\<lparr>trace := [Mkdir ''/srv/docs/_doxygen'']\<rparr>"]
      mk by simp
  have b: "fst (run_doxygen (conf_py conf_file (world_spawn_error x)) () (world_spawn_error x)) =
        (if x = FileNotFoundError \<or> (\<exists>cmd rc. x = CalledProcessError cmd rc)
         then Inr () else Inl x)" for x
  proof -
    let ?w = "world_spawn_error x"
    let ?h = "conf_py conf_file ?w"
    let ?v1 = "?w\<lparr>trace := trace ?w @ [Mkdir ''/srv/docs/_doxygen''],
                 fs := (fs world_fresh)([''srv'', ''docs'', ''_doxygen''] \<mapsto> Dir)\<rparr>"
    let ?v2 = "?v1\<lparr>trace := trace ?v1 @ [Exec [''doxygen'', ''Doxyfile''] (docs_dir_of ?h ?w)]\<rparr>"
    have mk': "os_makedirs (doxygen_dir_of ?h ?w) True ?w = (Inr (), ?v1)"
      by (simp add: sample_doxygen_dir sample_cwd fresh_makedirs sample_fs)
    have run': "subprocess_run [''doxygen'', ''Doxyfile''] (docs_dir_of ?h ?w) True ?v1 = (Inl x, ?v2)"
      by (rule spawn_error_run) simp
    show ?thesis
      using run_doxygen_catches_two_kinds
        [where g = ?h and w = ?w and ?w1.0 = ?v1 and e' = x and ?w2.0 = ?v2 and app = "()"]
        mk' run' by simp
  qed
  from a b [of PermissionError] b [of FileNotFoundError] show ?thesis by simp
qed

text \<open>
  Claim C8. Take two executions that differ only in the environment variable
  \<open>READTHEDOCS\<close>, in its value or in its presence, from the evaluation of the module on.
  The directory creation has the same outcome and leaves the same world but for that
  variable; the hook issues the same \<open>mkdir\<close> calls and the same program start, in the
  same order. The child inherits the environment, so only what it does with the
  variable can differ: if the machine's response to the program start is the same with
  either value, the hook returns the same result and leaves the same world but for the
  variable. The flag \<open>read_the_docs_build\<close> has no influence on the hook.
\<close>

theorem run_doxygen_ignores_READTHEDOCS:
  "os_makedirs (doxygen_dir_of (conf_py f (set_env ''READTHEDOCS'' v w))
        (set_env ''READTHEDOCS'' v w)) True (set_env ''READTHEDOCS'' v w) =
     (fst (os_makedirs (doxygen_dir_of (conf_py f w) w) True w),
      set_env ''READTHEDOCS'' v (snd (os_makedirs (doxygen_dir_of (conf_py f w) w) True w))) \<and>
   filter (\<lambda>e. \<not> is_write e)
     (new_events (set_env ''READTHEDOCS'' v w)
        (snd (run_doxygen (conf_py f (set_env ''READTHEDOCS'' v w)) app
               (set_env ''READTHEDOCS'' v w)))) =
   filter (\<lambda>e. \<not> is_write e)
     (new_events w (snd (run_doxygen (conf_py f w) app w))) \<and>
   ((\<forall>t. exec_program w [''doxygen'', ''Doxyfile''] (docs_dir_of (conf_py f w) w)
            ((environ w)(''READTHEDOCS'' := v)) t =
          exec_program w [''doxygen'', ''Doxyfile''] (docs_dir_of (conf_py f w) w)
            (environ w) t) \<longrightarrow>
      run_doxygen (conf_py f (set_env ''READTHEDOCS'' v w)) app (set_env ''READTHEDOCS'' v w) =
        (fst (run_doxygen (conf_py f w) app w),
         set_env ''READTHEDOCS'' v (snd (run_doxygen (conf_py f w) app w)))) \<and>
   run_doxygen ((conf_py f w)\<lparr>read_the_docs_build := b\<rparr>) app w = run_doxygen (conf_py f w) app w"
proof -
  let ?k = "''READTHEDOCS''"
  let ?w' = "set_env ?k v w"
  let ?g = "conf_py f w" and ?g' = "conf_py f ?w'"
  let ?dx = "doxygen_dir_of ?g w" and ?dd = "docs_dir_of ?g w"
  let ?nw = "\<lambda>e. \<not> is_write e"
  obtain r w1 where m: "os_makedirs ?dx True w = (r, w1)"
    by (cases "os_makedirs ?dx True w")
  have m': "os_makedirs ?dx True ?w' = (r, set_env ?k v w1)"
    by (simp add: makedirs_set_env m)
  obtain evs fs1 where w1: "w1 = w\<lparr>trace := trace w @ evs, fs := fs1\<rparr>"
    using makedirs_world [of ?dx True w] m by auto
  have tr: "trace ?w' = trace w" "trace (set_env ?k v w1) = trace w1"
    by (simp_all add: set_env_def)
  have tw1: "trace w1 = trace w @ evs"
    by (simp add: w1)
  have first: "os_makedirs (doxygen_dir_of ?g' ?w') True ?w' =
     (fst (os_makedirs ?dx True w), set_env ?k v (snd (os_makedirs ?dx True w)))"
    by (simp add: dirs_set_env makedirs_set_env)
  have second: "filter ?nw (new_events ?w' (snd (run_doxygen ?g' app ?w'))) =
                filter ?nw (new_events w (snd (run_doxygen ?g app w)))"
  proof (cases r)
    case (Inl e)
    with m m' have "run_doxygen ?g app w = (Inl e, w1)"
      and "run_doxygen ?g' app ?w' = (Inl e, set_env ?k v w1)"
      by (simp_all add: run_doxygen_unfold dirs_set_env)
    then show ?thesis
      by (simp add: new_events_def tr)
  next
    case (Inr u)
    with m m' have a: "run_doxygen ?g app w = try_doxygen ?dd w1"
      and b: "run_doxygen ?g' app ?w' = try_doxygen ?dd (set_env ?k v w1)"
      by (simp_all add: run_doxygen_unfold dirs_set_env)
    obtain out where o: "trace (snd (try_doxygen ?dd w1)) =
          trace w1 @ Exec [''doxygen'', ''Doxyfile''] ?dd # out" "list_all is_write out"
      using try_doxygen_trace by blast
    obtain out' where o': "trace (snd (try_doxygen ?dd (set_env ?k v w1))) =
          trace (set_env ?k v w1) @ Exec [''doxygen'', ''Doxyfile''] ?dd # out'"
        "list_all is_write out'"
      using try_doxygen_trace by blast
    have "new_events w (snd (run_doxygen ?g app w)) =
            evs @ Exec [''doxygen'', ''Doxyfile''] ?dd # out"
      by (rule new_events_append) (simp add: a o tw1)
    moreover have "new_events ?w' (snd (run_doxygen ?g' app ?w')) =
            evs @ Exec [''doxygen'', ''Doxyfile''] ?dd # out'"
      by (rule new_events_append) (simp add: b o' tr tw1)
    ultimately show ?thesis
      using o(2) o'(2) by (simp add: is_write_filter)
  qed
  have third: "run_doxygen ?g' app ?w' =
        (fst (run_doxygen ?g app w), set_env ?k v (snd (run_doxygen ?g app w)))"
    if same: "\<forall>t. exec_program w [''doxygen'', ''Doxyfile''] ?dd ((environ w)(?k := v)) t =
          exec_program w [''doxygen'', ''Doxyfile''] ?dd (environ w) t"
  proof (cases r)
    case (Inl e)
    with m m' show ?thesis
      by (simp add: run_doxygen_unfold dirs_set_env)
  next
    case (Inr u)
    with m m' have a: "run_doxygen ?g app w = try_doxygen ?dd w1"
      and b: "run_doxygen ?g' app ?w' = try_doxygen ?dd (set_env ?k v w1)"
      by (simp_all add: run_doxygen_unfold dirs_set_env)
    have "exec_program w1 [''doxygen'', ''Doxyfile''] ?dd ((environ w1)(?k := v)) (fs w1) =
          exec_program w1 [''doxygen'', ''Doxyfile''] ?dd (environ w1) (fs w1)"
      using same by (simp add: w1)
    then show ?thesis
      by (simp add: a b try_doxygen_set_env)
  qed
  have fourth: "run_doxygen (?g\<lparr>read_the_docs_build := b\<rparr>) app w = run_doxygen ?g app w"
    by (simp add: run_doxygen_def)
  from first second third fourth show ?thesis by blast
qed

text \<open>
  Instance: the sample world with \<open>READTHEDOCS\<close> unset and set to \<open>True\<close>. The flag
  differs, the hook does the same.
\<close>

theorem run_doxygen_ignores_READTHEDOCS_witness:
  "read_the_docs_build (conf_py conf_file (set_env ''READTHEDOCS'' (Some ''True'') world_fresh)) \<and>
   \<not> read_the_docs_build (conf_py conf_file world_fresh) \<and>
   run_doxygen (conf_py conf_file (set_env ''READTHEDOCS'' (Some ''True'') world_fresh)) ()
       (set_env ''READTHEDOCS'' (Some ''True'') world_fresh) =
     (fst (run_doxygen (conf_py conf_file world_fresh) () world_fresh),
      set_env ''READTHEDOCS'' (Some ''True'')
        (snd (run_doxygen (conf_py conf_file world_fresh) () world_fresh)))"
proof -
  have a: "read_the_docs_build
             (conf_py conf_file (set_env ''READTHEDOCS'' (Some ''True'') world_fresh))"
    by (simp add: conf_py_def os_environ_get_def set_env_def)
  have b: "\<not> read_the_docs_build (conf_py conf_file world_fresh)"
    by (simp add: conf_py_def os_environ_get_def world_fresh_def)
  have c: "\<forall>t. exec_program world_fresh [''doxygen'', ''Doxyfile'']
              (docs_dir_of (conf_py conf_file world_fresh) world_fresh)
              ((environ world_fresh)(''READTHEDOCS'' := Some ''True'')) t =
            exec_program world_fresh [''doxygen'', ''Doxyfile'']
              (docs_dir_of (conf_py conf_file world_fresh) world_fresh)
              (environ world_fresh) t"
    by (simp add: world_fresh_def)
  from run_doxygen_ignores_READTHEDOCS
         [of conf_file "Some ''True''" world_fresh "()"] c
  have "run_doxygen (conf_py conf_file (set_env ''READTHEDOCS'' (Some ''True'') world_fresh)) ()
       (set_env ''READTHEDOCS'' (Some ''True'') world_fresh) =
     (fst (run_doxygen (conf_py conf_file world_fresh) () world_fresh),
      set_env ''READTHEDOCS'' (Some ''True'')
        (snd (run_doxygen (conf_py conf_file world_fresh) () world_fresh)))"
    by blast
  with a b show ?thesis by simp
qed

text \<open>
  Claim C9. The events of an execution of \<open>run_doxygen\<close> whose directory creation
  returns are: \<open>mkdir\<close> calls, the last of them for the output directory; then the start
  of \<open>doxygen\<close>; then printed lines only. So the directory creation comes before the
  program start. The events of an execution whose directory creation raises are
  \<open>mkdir\<close> calls only: the program is not started.
\<close>

theorem makedirs_before_doxygen:
  "(fst (os_makedirs (doxygen_dir_of g w) True w) = Inr () \<longrightarrow>
      (\<exists>mks out. new_events w (snd (run_doxygen g app w)) =
           mks @ Mkdir (doxygen_dir_of g w) #
             Exec [''doxygen'', ''Doxyfile''] (docs_dir_of g w) # out \<and>
         list_all is_mkdir mks \<and> list_all is_write out)) \<and>
   (fst (os_makedirs (doxygen_dir_of g w) True w) \<noteq> Inr () \<longrightarrow>
      list_all is_mkdir (new_events w (snd (run_doxygen g app w))))"
  using run_doxygen_events_created [of g w app] run_doxygen_events_raised [of g w app]
  by blast

text \<open>
  Instances: the sample world without the output directory, and the one where a regular
  file has its name.
\<close>

theorem makedirs_before_doxygen_witness:
  "(\<exists>mks out. new_events world_fresh
        (snd (run_doxygen (conf_py conf_file world_fresh) () world_fresh)) =
      mks @ Mkdir ''/srv/docs/_doxygen'' # Exec [''doxygen'', ''Doxyfile''] ''/srv/docs'' # out \<and>
      list_all is_mkdir mks \<and> list_all is_write out) \<and>
   list_all is_mkdir (new_events world_blocked
        (snd (run_doxygen (conf_py conf_file world_blocked) () world_blocked)))"
proof -
  let ?g = "conf_py conf_file world_fresh" and ?h = "conf_py conf_file world_blocked"
  have "fst (os_makedirs (doxygen_dir_of ?g world_fresh) True world_fresh) = Inr ()"
    by (simp add: sample_doxygen_dir sample_cwd fresh_makedirs)
  with makedirs_before_doxygen [of ?g world_fresh "()"]
  have a: "\<exists>mks out. new_events world_fresh (snd (run_doxygen ?g () world_fresh)) =
      mks @ Mkdir ''/srv/docs/_doxygen'' # Exec [''doxygen'', ''Doxyfile''] ''/srv/docs'' # out \<and>
      list_all is_mkdir mks \<and> list_all is_write out"
    by (simp add: sample_docs_dir sample_doxygen_dir sample_cwd)
  have "fst (os_makedirs (doxygen_dir_of ?h world_blocked) True world_blocked) \<noteq> Inr ()"
    by (simp add: sample_doxygen_dir sample_cwd blocked_makedirs)
  with makedirs_before_doxygen [of ?h world_blocked "()"]
  have b: "list_all is_mkdir (new_events world_blocked (snd (run_doxygen ?h () world_blocked)))"
    by simp
  from a b show ?thesis by simp
qed

end
